theory Spec2Isabelle
  imports Complex_Main "HOL-Library.Multiset"
begin

section \<open>The mesh exporter of blender-mesh-to-json.py\<close>

text \<open>
  The operator \<open>MeshToJSON.execute\<close> reads the active object of the host, fills the
  dictionary \<open>mesh_json\<close> in five passes (names, faces, vertices, UVs, bounding box),
  sets the unused optional arrays to \<open>None\<close> and prints the document between two
  marker lines. Every exception the body can raise is a value of \<open>error\<close>.

  A Python float is a value of \<open>pyfloat\<close>: a real number, one of the two infinities, or
  NaN. The operator itself never computes with floats: it copies them, and it compares
  them in \<open>min\<close> and \<open>max\<close>. The only arithmetic is the host's product
  \<open>mesh.matrix_world * corner\<close>, which belongs to mathutils and is a datum of the host
  object here, so that its rounding, overflow and NaN results are whatever the host
  returns.
\<close>

subsection \<open>Floats, \<open>min\<close> and \<open>max\<close>\<close>

datatype pyfloat = NaN | NegInf | Fin real | PosInf

text \<open>\<open>a < b\<close> and \<open>a <= b\<close> on floats: every comparison with NaN is false.\<close>

fun float_lt :: "pyfloat \<Rightarrow> pyfloat \<Rightarrow> bool" where
  "float_lt NaN b = False"
| "float_lt a NaN = False"
| "float_lt NegInf b = (b \<noteq> NegInf)"
| "float_lt (Fin a) NegInf = False"
| "float_lt (Fin a) (Fin b) = (a < b)"
| "float_lt (Fin a) PosInf = True"
| "float_lt PosInf b = False"


text \<open>
  Python's two-argument \<open>min\<close> and \<open>max\<close>: the second argument replaces the first only
  when it compares strictly below (above) it, so the first is kept on a tie and whenever
  the second is NaN.
\<close>

definition py_min :: "pyfloat \<Rightarrow> pyfloat \<Rightarrow> pyfloat" where
  "py_min a b = (if float_lt b a then b else a)"

definition py_max :: "pyfloat \<Rightarrow> pyfloat \<Rightarrow> pyfloat" where
  "py_max a b = (if float_lt a b then b else a)"

subsection \<open>Host data (bpy, mathutils)\<close>

datatype error = AttributeError | IndexError | TypeError

datatype status = FINISHED

datatype Vector = Vector (vec_x: pyfloat) (vec_y: pyfloat) (vec_z: pyfloat)

record vertex_group_element =
  group :: int
  weight :: pyfloat

record mesh_vertex =
  co :: Vector
  groups :: "vertex_group_element list"

record mesh_polygon =
  face_vertices :: "int list"
  loop_indices :: "int list"
  normal :: Vector

text \<open>
  A UV texture layer is the list \<open>data\<close> of its per-face entries; an entry is the name of
  its image, \<open>None\<close> when the face has no image. A UV layer is the list of its per-loop
  \<open>uv\<close> pairs.
\<close>

type_synonym uv_texture = "string option list"

type_synonym uv_layer = "(pyfloat \<times> pyfloat) list"

record mesh_data =
  uv_textures :: "uv_texture list"
  uv_textures_active :: "uv_texture option"
  uv_layers_active :: "uv_layer option"
  polygons :: "mesh_polygon list"
  vertices :: "mesh_vertex list"

record parent_object =
  parent_type :: string
  parent_name :: string

text \<open>
  \<open>matrix_world\<close> is used at line 140 only, as the left operand of the mathutils
  product with a corner: the field holds the map from a corner to
  \<open>mesh.matrix_world * corner\<close>.
\<close>

record blender_object =
  name :: string
  parent :: "parent_object option"
  data :: mesh_data
  bound_box :: "Vector list"
  matrix_world :: "Vector \<Rightarrow> Vector"

record bpy_context =
  filepath :: string
  active_object :: "blender_object option"

subsection \<open>\<open>os.path.splitext\<close>\<close>

text \<open>
  \<open>str.rfind\<close> for a one-character needle: the last position of the character, or \<open>-1\<close>.
\<close>

fun rfind :: "string \<Rightarrow> char \<Rightarrow> int" where
  "rfind [] c = -1"
| "rfind (x # xs) c =
     (let r = rfind xs c in if r \<noteq> -1 then r + 1 else if x = c then 0 else -1)"

text \<open>
  The loop of \<open>genericpath._splitext\<close> that skips the leading dots of the file name: it
  answers whether some character in \<open>p[filenameIndex:dotIndex]\<close> is not the separator of
  extensions.
\<close>

function skip_leading_dots :: "string \<Rightarrow> char \<Rightarrow> int \<Rightarrow> int \<Rightarrow> bool" where
  "skip_leading_dots p extsep filenameIndex dotIndex =
     (if filenameIndex < dotIndex then
        (if take 1 (drop (nat filenameIndex) p) \<noteq> [extsep] then True
         else skip_leading_dots p extsep (filenameIndex + 1) dotIndex)
      else False)"
  by pat_completeness auto
termination
  by (relation "measure (\<lambda>(p, e, f, d). nat (d - f))") auto

declare skip_leading_dots.simps [simp del]

definition splitext_generic :: "string \<Rightarrow> char \<Rightarrow> char option \<Rightarrow> char \<Rightarrow> string \<times> string" where
  "splitext_generic p sep altsep extsep =
     (let sepIndex = rfind p sep;
          sepIndex = (case altsep of None \<Rightarrow> sepIndex
                      | Some a \<Rightarrow> max sepIndex (rfind p a));
          dotIndex = rfind p extsep
      in if dotIndex > sepIndex \<and> skip_leading_dots p extsep (sepIndex + 1) dotIndex
         then (take (nat dotIndex) p, drop (nat dotIndex) p)
         else (p, []))"

text \<open>\<open>posixpath.splitext\<close>: separator \<open>/\<close>, no alternative separator, extensions after \<open>.\<close>\<close>

definition splitext :: "string \<Rightarrow> string \<times> string" where
  "splitext p = splitext_generic p (CHR ''/'') None (CHR ''.'')"

subsection \<open>The document\<close>

record bounding_box_json =
  lower_left_front :: "pyfloat list"
  upper_right_back :: "pyfloat list"

text \<open>
  The dictionary \<open>mesh_json\<close>. The five arrays that the operator may replace by \<open>None\<close>
  and the two names are options.
\<close>

record mesh_json =
  vertex_positions :: "pyfloat list"
  num_vertices_in_each_face :: "int list"
  vertex_position_indices :: "int list"
  vertex_normals :: "pyfloat list"
  vertex_normal_indices :: "int list"
  vertex_uvs :: "pyfloat list option"
  vertex_uv_indices :: "int list option"
  texture_name :: "string option"
  armature_name :: "string option"
  vertex_group_indices :: "int list option"
  vertex_group_weights :: "pyfloat list option"
  num_groups_for_each_vertex :: "int list option"
  bounding_box :: bounding_box_json

definition initial_mesh_json :: mesh_json where
  "initial_mesh_json =
     \<lparr>vertex_positions = [], num_vertices_in_each_face = [], vertex_position_indices = [],
      vertex_normals = [], vertex_normal_indices = [], vertex_uvs = Some [],
      vertex_uv_indices = Some [], texture_name = None, armature_name = None,
      vertex_group_indices = Some [], vertex_group_weights = Some [],
      num_groups_for_each_vertex = Some [],
      bounding_box = \<lparr>lower_left_front = [], upper_right_back = []\<rparr>\<rparr>"

text \<open>\<open>lst.append(x)\<close> on an entry that may hold \<open>None\<close>.\<close>

definition append_to :: "'a list option \<Rightarrow> 'a \<Rightarrow> error + 'a list option" where
  "append_to l x = (case l of None \<Rightarrow> Inl AttributeError | Some xs \<Rightarrow> Inr (Some (xs @ [x])))"

text \<open>Sequencing of two steps, the first of which may raise.\<close>

definition and_then :: "error + 'a \<Rightarrow> ('a \<Rightarrow> error + 'b) \<Rightarrow> error + 'b" where
  "and_then r f = (case r of Inl e \<Rightarrow> Inl e | Inr v \<Rightarrow> f v)"

subsection \<open>Names (lines 57 to 62)\<close>

definition set_armature_name :: "blender_object \<Rightarrow> mesh_json \<Rightarrow> mesh_json" where
  "set_armature_name mesh mj =
     (case parent mesh of
        None \<Rightarrow> mj
      | Some p \<Rightarrow> if parent_type p = ''ARMATURE''
                  then mj\<lparr>armature_name := Some (parent_name p)\<rparr> else mj)"

definition set_texture_name :: "blender_object \<Rightarrow> mesh_json \<Rightarrow> error + mesh_json" where
  "set_texture_name mesh mj =
     (if uv_textures (data mesh) \<noteq> [] then
        (case uv_textures_active (data mesh) of
           None \<Rightarrow> Inl AttributeError
         | Some layer \<Rightarrow>
             (case layer of
                [] \<Rightarrow> Inl IndexError
              | entry # _ \<Rightarrow>
                  (case entry of
                     None \<Rightarrow> Inl AttributeError
                   | Some texture_name' \<Rightarrow>
                       Inr (mj\<lparr>texture_name := Some (fst (splitext texture_name'))\<rparr>))))
      else Inr mj)"

subsection \<open>Faces (lines 67 to 88)\<close>

text \<open>The inner loop \<open>for i in range(num_vertices_in_face)\<close>, over the remaining values of \<open>i\<close>.\<close>

fun face_loop :: "bool \<Rightarrow> mesh_polygon \<Rightarrow> int \<Rightarrow> nat list \<Rightarrow> mesh_json \<Rightarrow> error + mesh_json" where
  "face_loop has_uv face index [] mj = Inr mj"
| "face_loop has_uv face index (i # rest) mj =
     (if i < length (face_vertices face) then
        (let mj = mj\<lparr>vertex_position_indices :=
                       vertex_position_indices mj @ [face_vertices face ! i]\<rparr>;
             mj = mj\<lparr>vertex_normal_indices := vertex_normal_indices mj @ [index]\<rparr>
         in if has_uv then
              (if i < length (loop_indices face) then
                 and_then (append_to (vertex_uv_indices mj) (loop_indices face ! i))
                   (\<lambda>l. face_loop has_uv face index rest (mj\<lparr>vertex_uv_indices := l\<rparr>))
               else Inl IndexError)
            else face_loop has_uv face index rest mj)
      else Inl IndexError)"

text \<open>The outer loop \<open>for face in mesh.data.polygons\<close>, with the counter \<open>index\<close>.\<close>

fun polygons_loop :: "bool \<Rightarrow> mesh_polygon list \<Rightarrow> int \<Rightarrow> mesh_json \<Rightarrow> error + mesh_json" where
  "polygons_loop has_uv [] index mj = Inr mj"
| "polygons_loop has_uv (face # rest) index mj =
     (let num_vertices_in_face = length (face_vertices face);
          mj = mj\<lparr>num_vertices_in_each_face :=
                    num_vertices_in_each_face mj @ [int num_vertices_in_face]\<rparr>
      in and_then (face_loop has_uv face index [0..<num_vertices_in_face] mj)
           (\<lambda>mj.
              let mj = mj\<lparr>vertex_normals := vertex_normals mj @ [vec_x (normal face)]\<rparr>;
                  mj = mj\<lparr>vertex_normals := vertex_normals mj @ [vec_y (normal face)]\<rparr>;
                  mj = mj\<lparr>vertex_normals := vertex_normals mj @ [vec_z (normal face)]\<rparr>
              in polygons_loop has_uv rest (index + 1) mj))"

subsection \<open>Vertices and their groups (lines 93 to 107)\<close>

fun groups_loop :: "vertex_group_element list \<Rightarrow> mesh_json \<Rightarrow> error + mesh_json" where
  "groups_loop [] mj = Inr mj"
| "groups_loop (g # rest) mj =
     and_then (append_to (vertex_group_indices mj) (group g))
       (\<lambda>gi. and_then (append_to (vertex_group_weights mj) (weight g))
          (\<lambda>gw. groups_loop rest
                   (mj\<lparr>vertex_group_indices := gi, vertex_group_weights := gw\<rparr>)))"

fun vertices_loop :: "mesh_vertex list \<Rightarrow> mesh_json \<Rightarrow> error + mesh_json" where
  "vertices_loop [] mj = Inr mj"
| "vertices_loop (vert # rest) mj =
     (let mj = mj\<lparr>vertex_positions := vertex_positions mj @ [vec_x (co vert)]\<rparr>;
          mj = mj\<lparr>vertex_positions := vertex_positions mj @ [vec_y (co vert)]\<rparr>;
          mj = mj\<lparr>vertex_positions := vertex_positions mj @ [vec_z (co vert)]\<rparr>;
          num_groups = int (length (groups vert))
      in and_then (groups_loop (groups vert) mj)
           (\<lambda>mj.
              if armature_name mj \<noteq> None then
                and_then (append_to (num_groups_for_each_vertex mj) num_groups)
                  (\<lambda>n. vertices_loop rest (mj\<lparr>num_groups_for_each_vertex := n\<rparr>))
              else vertices_loop rest mj))"

subsection \<open>UV coordinates (lines 109 to 112)\<close>

fun uvs_loop :: "uv_layer \<Rightarrow> mesh_json \<Rightarrow> error + mesh_json" where
  "uvs_loop [] mj = Inr mj"
| "uvs_loop ((u, v) # rest) mj =
     and_then (append_to (vertex_uvs mj) u)
       (\<lambda>l. and_then (append_to l v)
          (\<lambda>l. uvs_loop rest (mj\<lparr>vertex_uvs := l\<rparr>)))"

definition export_uvs :: "blender_object \<Rightarrow> mesh_json \<Rightarrow> error + mesh_json" where
  "export_uvs mesh mj =
     (if uv_textures (data mesh) \<noteq> [] then
        (case uv_layers_active (data mesh) of
           None \<Rightarrow> Inl AttributeError
         | Some layer \<Rightarrow> uvs_loop layer mj)
      else Inr mj)"

subsection \<open>The optional arrays (lines 114 to 121)\<close>

definition null_unused :: "mesh_json \<Rightarrow> mesh_json" where
  "null_unused mj =
     (let mj = (if armature_name mj = None
                then mj\<lparr>vertex_group_indices := None, vertex_group_weights := None,
                        num_groups_for_each_vertex := None\<rparr>
                else mj)
      in if texture_name mj = None
         then mj\<lparr>vertex_uvs := None, vertex_uv_indices := None\<rparr>
         else mj)"

subsection \<open>Bounding box (lines 131 to 150)\<close>

text \<open>
  The loop over \<open>mesh.bound_box\<close>; \<open>llf\<close> and \<open>urb\<close> are the lists \<open>lower_left_front\<close> and
  \<open>upper_right_back\<close>, which always have three entries.
\<close>

fun corners_loop :: "(Vector \<Rightarrow> Vector) \<Rightarrow> Vector list \<Rightarrow> pyfloat list \<times> pyfloat list
    \<Rightarrow> pyfloat list \<times> pyfloat list" where
  "corners_loop m [] (llf, urb) = (llf, urb)"
| "corners_loop m (corner # rest) (llf, urb) =
     (let corner = m corner;
          llf = llf[0 := py_min (llf ! 0) (vec_x corner)];
          llf = llf[1 := py_min (llf ! 1) (vec_y corner)];
          llf = llf[2 := py_min (llf ! 2) (vec_z corner)];
          urb = urb[0 := py_max (urb ! 0) (vec_x corner)];
          urb = urb[1 := py_max (urb ! 1) (vec_y corner)];
          urb = urb[2 := py_max (urb ! 2) (vec_z corner)]
      in corners_loop m rest (llf, urb))"

definition compute_bounding_box :: "blender_object \<Rightarrow> bounding_box_json" where
  "compute_bounding_box mesh =
     (let llf = [PosInf, PosInf, PosInf];
          urb = [NegInf, NegInf, NegInf];
          (llf, urb) = corners_loop (matrix_world mesh) (bound_box mesh) (llf, urb)
      in \<lparr>lower_left_front = llf, upper_right_back = urb\<rparr>)"

subsection \<open>The operator\<close>

text \<open>Lines 36 to 150: the document built for the object \<open>mesh\<close>.\<close>

definition build_mesh_json :: "blender_object \<Rightarrow> error + mesh_json" where
  "build_mesh_json mesh =
     (let mj = set_armature_name mesh initial_mesh_json;
          has_uv = (uv_textures (data mesh) \<noteq> [])
      in and_then (set_texture_name mesh mj)
           (\<lambda>mj. and_then (polygons_loop has_uv (polygons (data mesh)) 0 mj)
              (\<lambda>mj. and_then (vertices_loop (vertices (data mesh)) mj)
                 (\<lambda>mj. and_then (export_uvs mesh mj)
                    (\<lambda>mj. Inr (null_unused mj\<lparr>bounding_box := compute_bounding_box mesh\<rparr>))))))"

definition start_marker :: "bpy_context \<Rightarrow> blender_object \<Rightarrow> string" where
  "start_marker ctx mesh = ''START_MESH_JSON '' @ filepath ctx @ '' '' @ name mesh"

definition end_marker :: "bpy_context \<Rightarrow> blender_object \<Rightarrow> string" where
  "end_marker ctx mesh = ''END_MESH_JSON '' @ filepath ctx @ '' '' @ name mesh"

text \<open>
  \<open>execute\<close>: the lines printed and the result. \<open>json.dumps\<close> is the parameter \<open>dumps\<close>; the
  first marker is printed before \<open>dumps\<close> is called.
\<close>

definition execute :: "(mesh_json \<Rightarrow> error + string) \<Rightarrow> bpy_context \<Rightarrow> string list \<times> (error + status)" where
  "execute dumps ctx =
     (case active_object ctx of
        None \<Rightarrow> ([], Inl AttributeError)
      | Some mesh \<Rightarrow>
          (case build_mesh_json mesh of
             Inl e \<Rightarrow> ([], Inl e)
           | Inr mj \<Rightarrow>
               (let out = [start_marker ctx mesh]
                in case dumps mj of
                     Inl e \<Rightarrow> (out, Inl e)
                   | Inr s \<Rightarrow> (out @ [s] @ [end_marker ctx mesh], Inr FINISHED))))"

subsection \<open>Closed forms of the arrays and conditions on the host data\<close>

text \<open>
  Auxiliary notions used to state what the loops compute: the stream of face counters, the
  name of an armature parent, the image name read at line 61, and the condition under
  which no attribute or index access of the operator fails.
\<close>

definition normal_index_stream :: "int \<Rightarrow> mesh_polygon list \<Rightarrow> int list" where
  "normal_index_stream index fs =
     concat (map (\<lambda>i. replicate (length (face_vertices (fs ! i))) (index + int i)) [0..<length fs])"

definition group_counts :: "string option \<Rightarrow> mesh_vertex list \<Rightarrow> int list" where
  "group_counts armature vs =
     (if armature \<noteq> None then map (\<lambda>v. int (length (groups v))) vs else [])"

definition parent_armature :: "blender_object \<Rightarrow> string option" where
  "parent_armature mesh = armature_name (set_armature_name mesh initial_mesh_json)"

definition active_image :: "blender_object \<Rightarrow> string option" where
  "active_image mesh =
     (case uv_textures_active (data mesh) of
        Some (Some texture_name' # _) \<Rightarrow> Some texture_name'
      | _ \<Rightarrow> None)"

definition exportable :: "blender_object \<Rightarrow> bool" where
  "exportable mesh =
     (uv_textures (data mesh) = [] \<or>
      (active_image mesh \<noteq> None \<and> uv_layers_active (data mesh) \<noteq> None \<and>
       list_all (\<lambda>f. length (face_vertices f) \<le> length (loop_indices f))
         (polygons (data mesh))))"

definition when_some :: "'b option \<Rightarrow> 'a \<Rightarrow> 'a option" where
  "when_some c v = (if c = None then None else Some v)"

definition world_axis :: "(Vector \<Rightarrow> Vector) \<Rightarrow> (Vector \<Rightarrow> pyfloat) \<Rightarrow> Vector list \<Rightarrow> pyfloat list" where
  "world_axis m axis cs = map (\<lambda>c. axis (m c)) cs"

subsection \<open>File names with an extension\<close>


subsection \<open>Example meshes\<close>

abbreviation vec :: "real \<Rightarrow> real \<Rightarrow> real \<Rightarrow> Vector" where
  "vec a b c \<equiv> Vector (Fin a) (Fin b) (Fin c)"

definition unit_cube_corners :: "Vector list" where
  "unit_cube_corners =
     [vec (-1) (-1) (-1), vec (-1) (-1) 1, vec (-1) 1 1, vec (-1) 1 (-1),
      vec 1 (-1) (-1), vec 1 (-1) 1, vec 1 1 1, vec 1 1 (-1)]"

text \<open>
  The product with a world matrix that translates by \<open>(2, 0, 5)\<close>, for a host that
  computes it exactly on finite corners.
\<close>

fun shift_world :: "Vector \<Rightarrow> Vector" where
  "shift_world (Vector (Fin a) (Fin b) (Fin c)) = Vector (Fin (a + 2)) (Fin b) (Fin (c + 5))"
| "shift_world v = Vector NaN NaN NaN"

text \<open>The product with the identity matrix.\<close>

definition identity_world :: "Vector \<Rightarrow> Vector" where
  "identity_world v = v"


definition skinned_mesh :: blender_object where
  "skinned_mesh =
     \<lparr>name = ''Body'',
      parent = Some \<lparr>parent_type = ''ARMATURE'', parent_name = ''Rig''\<rparr>,
      data =
        \<lparr>uv_textures = [[Some ''wood.png'', Some ''wood.png'']],
         uv_textures_active = Some [Some ''wood.png'', Some ''wood.png''],
         uv_layers_active =
           Some [(Fin 0, Fin 0), (Fin 1, Fin 0), (Fin 1, Fin 1), (Fin 0, Fin 0),
                 (Fin 1, Fin 1), (Fin 0, Fin 1), (Fin 0, Fin 1)],
         polygons =
           [\<lparr>face_vertices = [0, 1, 2], loop_indices = [0, 1, 2], normal = vec 0 0 1\<rparr>,
            \<lparr>face_vertices = [0, 2, 3, 4], loop_indices = [3, 4, 5, 6], normal = vec 0 1 0\<rparr>],
         vertices =
           [\<lparr>co = vec 0 0 0, groups = [\<lparr>group = 0, weight = Fin 1\<rparr>]\<rparr>,
            \<lparr>co = vec 1 0 0, groups = []\<rparr>,
            \<lparr>co = vec 1 1 0,
             groups = [\<lparr>group = 0, weight = Fin (1/4)\<rparr>, \<lparr>group = 2, weight = Fin (3/4)\<rparr>]\<rparr>,
            \<lparr>co = vec 0 1 0, groups = [\<lparr>group = 1, weight = Fin 1\<rparr>]\<rparr>,
            \<lparr>co = vec 0 1 1, groups = []\<rparr>]\<rparr>,
      bound_box = unit_cube_corners,
      matrix_world = shift_world\<rparr>"

definition skinned_document :: mesh_json where
  "skinned_document =
     \<lparr>vertex_positions = map Fin [0, 0, 0, 1, 0, 0, 1, 1, 0, 0, 1, 0, 0, 1, 1],
      num_vertices_in_each_face = [3, 4],
      vertex_position_indices = [0, 1, 2, 0, 2, 3, 4],
      vertex_normals = map Fin [0, 0, 1, 0, 1, 0],
      vertex_normal_indices = [0, 0, 0, 1, 1, 1, 1],
      vertex_uvs = Some (map Fin [0, 0, 1, 0, 1, 1, 0, 0, 1, 1, 0, 1, 0, 1]),
      vertex_uv_indices = Some [0, 1, 2, 3, 4, 5, 6],
      texture_name = Some ''wood'', armature_name = Some ''Rig'',
      vertex_group_indices = Some [0, 0, 2, 1],
      vertex_group_weights = Some (map Fin [1, 1 / 4, 3 / 4, 1]),
      num_groups_for_each_vertex = Some [1, 0, 2, 1, 0],
      bounding_box =
        \<lparr>lower_left_front = [Fin 1, Fin (- 1), Fin 4],
         upper_right_back = [Fin 3, Fin 1, Fin 6]\<rparr>\<rparr>"

text \<open>A single quad without texture, whose parent is not an armature.\<close>

definition quad_plane :: blender_object where
  "quad_plane =
     \<lparr>name = ''Plane'',
      parent = Some \<lparr>parent_type = ''EMPTY'', parent_name = ''Root''\<rparr>,
      data =
        \<lparr>uv_textures = [],
         uv_textures_active = None,
         uv_layers_active = None,
         polygons =
           [\<lparr>face_vertices = [0, 1, 3, 2], loop_indices = [0, 1, 2, 3], normal = vec 0 0 1\<rparr>],
         vertices =
           [\<lparr>co = vec (-1) (-1) 0, groups = [\<lparr>group = 0, weight = Fin 1\<rparr>]\<rparr>,
            \<lparr>co = vec 1 (-1) 0, groups = []\<rparr>,
            \<lparr>co = vec (-1) 1 0, groups = []\<rparr>,
            \<lparr>co = vec 1 1 0, groups = []\<rparr>]\<rparr>,
      bound_box = unit_cube_corners,
      matrix_world = identity_world\<rparr>"

definition quad_document :: mesh_json where
  "quad_document =
     \<lparr>vertex_positions = map Fin [- 1, - 1, 0, 1, - 1, 0, - 1, 1, 0, 1, 1, 0],
      num_vertices_in_each_face = [4],
      vertex_position_indices = [0, 1, 3, 2],
      vertex_normals = map Fin [0, 0, 1],
      vertex_normal_indices = [0, 0, 0, 0],
      vertex_uvs = None,
      vertex_uv_indices = None,
      texture_name = None, armature_name = None,
      vertex_group_indices = None,
      vertex_group_weights = None,
      num_groups_for_each_vertex = None,
      bounding_box =
        \<lparr>lower_left_front = [Fin (- 1), Fin (- 1), Fin (- 1)],
         upper_right_back = [Fin 1, Fin 1, Fin 1]\<rparr>\<rparr>"



text \<open>
  The numbering of loops that Blender produces when it writes the faces one after the
  other: the loops of a face are \<open>range(loop_start, loop_start + loop_total)\<close> and the
  next face starts where this one ends.
\<close>

fun consecutive_loops :: "int \<Rightarrow> mesh_polygon list \<Rightarrow> bool" where
  "consecutive_loops start [] = True"
| "consecutive_loops start (f # fs) =
     (loop_indices f = map (\<lambda>k. start + int k) [0..<length (face_vertices f)] \<and>
      consecutive_loops (start + int (length (face_vertices f))) fs)"

text \<open>The textured mesh with the loops of the quad stored before those of the triangle.\<close>

definition swapped_loops_mesh :: blender_object where
  "swapped_loops_mesh =
     skinned_mesh\<lparr>data := (data skinned_mesh)\<lparr>polygons :=
       [\<lparr>face_vertices = [0, 1, 2], loop_indices = [4, 5, 6], normal = vec 0 0 1\<rparr>,
        \<lparr>face_vertices = [0, 2, 3, 4], loop_indices = [0, 1, 2, 3], normal = vec 0 1 0\<rparr>]\<rparr>\<rparr>"

definition constant_dumps :: "mesh_json \<Rightarrow> error + string" where
  "constant_dumps mj = Inr ''{}''"



definition body_context :: bpy_context where
  "body_context = \<lparr>filepath = ''/tmp/body.blend'', active_object = Some skinned_mesh\<rparr>"

section \<open>What the loops compute\<close>

lemma and_then_Inr [simp]: "and_then (Inr v) f = f v"
  by (simp add: and_then_def)

lemma and_then_Inl [simp]: "and_then (Inl e) f = Inl e"
  by (simp add: and_then_def)

lemma append_to_Some [simp]: "append_to (Some xs) x = Inr (Some (xs @ [x]))"
  by (simp add: append_to_def)

lemma face_loop_run:
  "vertex_uv_indices mj = Some u \<Longrightarrow>
   face_loop has_uv f index ks mj =
     (if \<forall>i\<in>set ks. i < length (face_vertices f) \<and> (has_uv \<longrightarrow> i < length (loop_indices f))
      then Inr (mj\<lparr>vertex_position_indices :=
                     vertex_position_indices mj @ map (\<lambda>i. face_vertices f ! i) ks,
                   vertex_normal_indices :=
                     vertex_normal_indices mj @ replicate (length ks) index,
                   vertex_uv_indices :=
                     Some (u @ (if has_uv then map (\<lambda>i. loop_indices f ! i) ks else []))\<rparr>)
      else Inl IndexError)"
proof (induction ks arbitrary: mj u)
  case Nil
  then show ?case by simp
next
  case (Cons k ks)
  let ?mj1 = "mj\<lparr>vertex_position_indices := vertex_position_indices mj @ [face_vertices f ! k],
                  vertex_normal_indices := vertex_normal_indices mj @ [index]\<rparr>"
  let ?mj2 = "?mj1\<lparr>vertex_uv_indices := Some (u @ [loop_indices f ! k])\<rparr>"
  have u1: "vertex_uv_indices ?mj1 = Some u"
    using Cons.prems by simp
  have u2: "vertex_uv_indices ?mj2 = Some (u @ [loop_indices f ! k])"
    by simp
  show ?case
  proof (cases has_uv)
    case True
    show ?thesis
      using Cons.IH [OF u2] Cons.prems True
      by (simp add: Let_def replicate_append_same)
  next
    case False
    show ?thesis
      using Cons.IH [OF u1] False
      by (simp add: Let_def replicate_append_same)
  qed
qed

lemma normal_index_stream_Nil [simp]: "normal_index_stream index [] = []"
  by (simp add: normal_index_stream_def)

lemma normal_index_stream_Cons [simp]:
  "normal_index_stream index (f # fs) =
     replicate (length (face_vertices f)) index @ normal_index_stream (index + 1) fs"
proof -
  have "[0..<length (f # fs)] = 0 # map Suc [0..<length fs]"
    by (simp add: upt_conv_Cons map_Suc_upt del: upt_Suc)
  then show ?thesis
    by (simp add: normal_index_stream_def o_def add.assoc del: upt_Suc)
qed

lemma map_nth_upt_take:
  assumes "n \<le> length xs"
  shows "map (\<lambda>i. xs ! i) [0..<n] = take n xs"
proof -
  have "take n xs = take n (map (\<lambda>i. xs ! i) [0..<length xs])"
    by (simp add: map_nth)
  also have "\<dots> = map (\<lambda>i. xs ! i) (take n [0..<length xs])"
    by (simp only: take_map)
  also have "take n [0..<length xs] = [0..<n]"
    using assms by simp
  finally show ?thesis by simp
qed

lemma polygons_loop_run:
  "vertex_uv_indices mj = Some u \<Longrightarrow>
   polygons_loop has_uv fs index mj =
     (if has_uv \<longrightarrow> (\<forall>f\<in>set fs. length (face_vertices f) \<le> length (loop_indices f))
      then Inr (mj\<lparr>num_vertices_in_each_face :=
                     num_vertices_in_each_face mj @ map (\<lambda>f. int (length (face_vertices f))) fs,
                   vertex_position_indices :=
                     vertex_position_indices mj @ concat (map face_vertices fs),
                   vertex_normals :=
                     vertex_normals mj @
                     concat (map (\<lambda>f. [vec_x (normal f), vec_y (normal f), vec_z (normal f)]) fs),
                   vertex_normal_indices :=
                     vertex_normal_indices mj @ normal_index_stream index fs,
                   vertex_uv_indices :=
                     Some (u @ (if has_uv
                                then concat (map (\<lambda>f. take (length (face_vertices f)) (loop_indices f)) fs)
                                else []))\<rparr>)
      else Inl IndexError)"
proof (induction fs arbitrary: mj u index)
  case Nil
  then show ?case by simp
next
  case (Cons f fs)
  let ?n = "length (face_vertices f)"
  let ?mj0 = "mj\<lparr>num_vertices_in_each_face := num_vertices_in_each_face mj @ [int ?n]\<rparr>"
  have u0: "vertex_uv_indices ?mj0 = Some u"
    using Cons.prems by simp
  have all_iff: "(\<forall>i\<in>set [0..<?n]. i < ?n \<and> (has_uv \<longrightarrow> i < length (loop_indices f)))
      \<longleftrightarrow> (has_uv \<longrightarrow> ?n \<le> length (loop_indices f))"
    by (cases ?n) (auto simp: less_Suc_eq_le)
  have vs: "map (\<lambda>i. face_vertices f ! i) [0..<?n] = face_vertices f"
    by (simp add: map_nth)
  have ls: "?n \<le> length (loop_indices f) \<Longrightarrow>
      map (\<lambda>i. loop_indices f ! i) [0..<?n] = take ?n (loop_indices f)"
    by (rule map_nth_upt_take)
  note run = face_loop_run [OF u0, of has_uv f index "[0..<?n]", unfolded all_iff]
  show ?case
  proof (cases "has_uv \<longrightarrow> ?n \<le> length (loop_indices f)")
    case False
    then have "face_loop has_uv f index [0..<?n] ?mj0 = Inl IndexError"
      using run by simp
    then show ?thesis
      using False by (simp add: Let_def del: upt_Suc)
  next
    case True
    let ?mj1 = "?mj0\<lparr>vertex_position_indices := vertex_position_indices mj @ face_vertices f,
        vertex_normal_indices := vertex_normal_indices mj @ replicate ?n index,
        vertex_uv_indices := Some (u @ (if has_uv then take ?n (loop_indices f) else []))\<rparr>"
    have fl: "face_loop has_uv f index [0..<?n] ?mj0 = Inr ?mj1"
      using run True vs ls by (simp del: upt_Suc)
    let ?mj2 = "?mj1\<lparr>vertex_normals := vertex_normals mj @
        [vec_x (normal f), vec_y (normal f), vec_z (normal f)]\<rparr>"
    have u2: "vertex_uv_indices ?mj2 = Some (u @ (if has_uv then take ?n (loop_indices f) else []))"
      by simp
    show ?thesis
      using Cons.IH [OF u2, of "index + 1"] fl True
      by (simp add: Let_def del: upt_Suc)
  qed
qed

lemma groups_loop_run:
  "vertex_group_indices mj = Some gi \<Longrightarrow> vertex_group_weights mj = Some gw \<Longrightarrow>
   groups_loop gs mj =
     Inr (mj\<lparr>vertex_group_indices := Some (gi @ map group gs),
              vertex_group_weights := Some (gw @ map weight gs)\<rparr>)"
proof (induction gs arbitrary: mj gi gw)
  case Nil
  then show ?case by simp
next
  case (Cons g gs)
  let ?mj1 = "mj\<lparr>vertex_group_indices := Some (gi @ [group g]),
                  vertex_group_weights := Some (gw @ [weight g])\<rparr>"
  have "groups_loop gs ?mj1 =
      Inr (?mj1\<lparr>vertex_group_indices := Some ((gi @ [group g]) @ map group gs),
                 vertex_group_weights := Some ((gw @ [weight g]) @ map weight gs)\<rparr>)"
    by (rule Cons.IH) simp_all
  then show ?case
    using Cons.prems by simp
qed

lemma vertices_loop_run:
  "vertex_group_indices mj = Some gi \<Longrightarrow> vertex_group_weights mj = Some gw \<Longrightarrow>
   num_groups_for_each_vertex mj = Some ng \<Longrightarrow>
   vertices_loop vs mj =
     Inr (mj\<lparr>vertex_positions :=
                vertex_positions mj @
                concat (map (\<lambda>v. [vec_x (co v), vec_y (co v), vec_z (co v)]) vs),
              vertex_group_indices := Some (gi @ concat (map (\<lambda>v. map group (groups v)) vs)),
              vertex_group_weights := Some (gw @ concat (map (\<lambda>v. map weight (groups v)) vs)),
              num_groups_for_each_vertex := Some (ng @ group_counts (armature_name mj) vs)\<rparr>)"
proof (induction vs arbitrary: mj gi gw ng)
  case Nil
  then show ?case by (simp add: group_counts_def)
next
  case (Cons v vs)
  let ?mj1 = "mj\<lparr>vertex_positions :=
      vertex_positions mj @ [vec_x (co v), vec_y (co v), vec_z (co v)]\<rparr>"
  let ?mj2 = "?mj1\<lparr>vertex_group_indices := Some (gi @ map group (groups v)),
      vertex_group_weights := Some (gw @ map weight (groups v))\<rparr>"
  have g: "groups_loop (groups v) ?mj1 = Inr ?mj2"
    using Cons.prems by (simp add: groups_loop_run [where gi = gi and gw = gw])
  show ?case
  proof (cases "armature_name mj")
    case None
    have "vertices_loop vs ?mj2 = Inr (?mj2\<lparr>vertex_positions :=
                vertex_positions ?mj2 @
                concat (map (\<lambda>v. [vec_x (co v), vec_y (co v), vec_z (co v)]) vs),
              vertex_group_indices :=
                Some ((gi @ map group (groups v)) @ concat (map (\<lambda>v. map group (groups v)) vs)),
              vertex_group_weights :=
                Some ((gw @ map weight (groups v)) @ concat (map (\<lambda>v. map weight (groups v)) vs)),
              num_groups_for_each_vertex := Some (ng @ group_counts (armature_name ?mj2) vs)\<rparr>)"
      using Cons.prems by (intro Cons.IH) simp_all
    then show ?thesis
      using g None by (simp add: Let_def group_counts_def)
  next
    case (Some a)
    let ?mj3 = "?mj2\<lparr>num_groups_for_each_vertex := Some (ng @ [int (length (groups v))])\<rparr>"
    have "vertices_loop vs ?mj3 = Inr (?mj3\<lparr>vertex_positions :=
                vertex_positions ?mj3 @
                concat (map (\<lambda>v. [vec_x (co v), vec_y (co v), vec_z (co v)]) vs),
              vertex_group_indices :=
                Some ((gi @ map group (groups v)) @ concat (map (\<lambda>v. map group (groups v)) vs)),
              vertex_group_weights :=
                Some ((gw @ map weight (groups v)) @ concat (map (\<lambda>v. map weight (groups v)) vs)),
              num_groups_for_each_vertex :=
                Some ((ng @ [int (length (groups v))]) @ group_counts (armature_name ?mj3) vs)\<rparr>)"
      by (intro Cons.IH) simp_all
    then show ?thesis
      using g Some Cons.prems by (simp add: Let_def group_counts_def)
  qed
qed

lemma uvs_loop_run:
  "vertex_uvs mj = Some l \<Longrightarrow>
   uvs_loop layer mj = Inr (mj\<lparr>vertex_uvs := Some (l @ concat (map (\<lambda>(u, v). [u, v]) layer))\<rparr>)"
proof (induction layer arbitrary: mj l)
  case Nil
  then show ?case by simp
next
  case (Cons p layer)
  obtain u v where p: "p = (u, v)" by (cases p)
  let ?mj1 = "mj\<lparr>vertex_uvs := Some (l @ [u, v])\<rparr>"
  have "uvs_loop layer ?mj1 =
      Inr (?mj1\<lparr>vertex_uvs := Some ((l @ [u, v]) @ concat (map (\<lambda>(u, v). [u, v]) layer))\<rparr>)"
    by (rule Cons.IH) simp
  then show ?case
    using Cons.prems p by simp
qed

lemma set_armature_name_eq:
  "set_armature_name mesh mj = (case parent_armature mesh of None \<Rightarrow> mj | Some a \<Rightarrow> mj\<lparr>armature_name := Some a\<rparr>)"
  by (simp add: set_armature_name_def parent_armature_def initial_mesh_json_def
      split: option.splits)

lemma set_texture_name_run:
  "set_texture_name mesh mj =
     (if uv_textures (data mesh) = [] then Inr mj
      else case active_image mesh of
             Some n \<Rightarrow> Inr (mj\<lparr>texture_name := Some (fst (splitext n))\<rparr>)
           | None \<Rightarrow> (case uv_textures_active (data mesh) of
                         Some [] \<Rightarrow> Inl IndexError | _ \<Rightarrow> Inl AttributeError))"
  by (simp add: set_texture_name_def active_image_def split: option.splits list.splits)

lemma build_no_uv:
  assumes "uv_textures (data mesh) = []"
  shows "build_mesh_json mesh = Inr
     \<lparr>vertex_positions =
        concat (map (\<lambda>v. [vec_x (co v), vec_y (co v), vec_z (co v)]) (vertices (data mesh))),
      num_vertices_in_each_face =
        map (\<lambda>f. int (length (face_vertices f))) (polygons (data mesh)),
      vertex_position_indices = concat (map face_vertices (polygons (data mesh))),
      vertex_normals =
        concat (map (\<lambda>f. [vec_x (normal f), vec_y (normal f), vec_z (normal f)])
          (polygons (data mesh))),
      vertex_normal_indices = normal_index_stream 0 (polygons (data mesh)),
      vertex_uvs = None,
      vertex_uv_indices = None,
      texture_name = None,
      armature_name = parent_armature mesh,
      vertex_group_indices =
        when_some (parent_armature mesh)
          (concat (map (\<lambda>v. map group (groups v)) (vertices (data mesh)))),
      vertex_group_weights =
        when_some (parent_armature mesh)
          (concat (map (\<lambda>v. map weight (groups v)) (vertices (data mesh)))),
      num_groups_for_each_vertex =
        when_some (parent_armature mesh)
          (map (\<lambda>v. int (length (groups v))) (vertices (data mesh))),
      bounding_box = compute_bounding_box mesh\<rparr>"
proof -
  let ?mj0 = "set_armature_name mesh initial_mesh_json"
  have f0: "vertex_uv_indices ?mj0 = Some []" "vertex_group_indices ?mj0 = Some []"
    "vertex_group_weights ?mj0 = Some []" "num_groups_for_each_vertex ?mj0 = Some []"
    "vertex_uvs ?mj0 = Some []"
    by (simp_all add: set_armature_name_eq initial_mesh_json_def split: option.splits)
  show ?thesis
    unfolding build_mesh_json_def Let_def
    using assms
    apply (simp add: set_texture_name_run export_uvs_def)
    apply (subst polygons_loop_run [where u = "[]"])
     apply (simp add: f0)
    apply simp
    apply (subst vertices_loop_run [where gi = "[]" and gw = "[]" and ng = "[]"])
       apply (simp_all add: f0)
    apply (simp add: set_armature_name_eq initial_mesh_json_def null_unused_def when_some_def
        group_counts_def parent_armature_def [symmetric] split: option.splits)
    done
qed

lemma build_uv:
  assumes "uv_textures (data mesh) \<noteq> []"
    and "active_image mesh = Some n"
    and "uv_layers_active (data mesh) = Some layer"
    and "list_all (\<lambda>f. length (face_vertices f) \<le> length (loop_indices f))
           (polygons (data mesh))"
  shows "build_mesh_json mesh = Inr
     \<lparr>vertex_positions =
        concat (map (\<lambda>v. [vec_x (co v), vec_y (co v), vec_z (co v)]) (vertices (data mesh))),
      num_vertices_in_each_face =
        map (\<lambda>f. int (length (face_vertices f))) (polygons (data mesh)),
      vertex_position_indices = concat (map face_vertices (polygons (data mesh))),
      vertex_normals =
        concat (map (\<lambda>f. [vec_x (normal f), vec_y (normal f), vec_z (normal f)])
          (polygons (data mesh))),
      vertex_normal_indices = normal_index_stream 0 (polygons (data mesh)),
      vertex_uvs = Some (concat (map (\<lambda>(u, v). [u, v]) layer)),
      vertex_uv_indices =
        Some (concat (map (\<lambda>f. take (length (face_vertices f)) (loop_indices f))
          (polygons (data mesh)))),
      texture_name = Some (fst (splitext n)),
      armature_name = parent_armature mesh,
      vertex_group_indices =
        when_some (parent_armature mesh)
          (concat (map (\<lambda>v. map group (groups v)) (vertices (data mesh)))),
      vertex_group_weights =
        when_some (parent_armature mesh)
          (concat (map (\<lambda>v. map weight (groups v)) (vertices (data mesh)))),
      num_groups_for_each_vertex =
        when_some (parent_armature mesh)
          (map (\<lambda>v. int (length (groups v))) (vertices (data mesh))),
      bounding_box = compute_bounding_box mesh\<rparr>"
proof -
  let ?mj0 = "set_armature_name mesh initial_mesh_json"
  have f0: "vertex_uv_indices ?mj0 = Some []" "vertex_group_indices ?mj0 = Some []"
    "vertex_group_weights ?mj0 = Some []" "num_groups_for_each_vertex ?mj0 = Some []"
    "vertex_uvs ?mj0 = Some []"
    by (simp_all add: set_armature_name_eq initial_mesh_json_def split: option.splits)
  have all: "\<forall>f\<in>set (polygons (data mesh)). length (face_vertices f) \<le> length (loop_indices f)"
    using assms(4) by (simp add: list_all_iff)
  show ?thesis
    unfolding build_mesh_json_def Let_def
    using assms(1-3) all
    apply (simp add: set_texture_name_run export_uvs_def)
    apply (subst polygons_loop_run [where u = "[]"])
     apply (simp add: f0)
    apply simp
    apply (subst vertices_loop_run [where gi = "[]" and gw = "[]" and ng = "[]"])
       apply (simp_all add: f0)
    apply (subst uvs_loop_run [where l = "[]"])
     apply (simp add: f0)
    apply (simp add: set_armature_name_eq initial_mesh_json_def null_unused_def when_some_def
        group_counts_def parent_armature_def [symmetric] split: option.splits)
    done
qed

lemma build_not_exportable:
  assumes "\<not> exportable mesh"
  shows "\<exists>e. build_mesh_json mesh = Inl e"
proof -
  let ?mj0 = "set_armature_name mesh initial_mesh_json"
  from assms have uv: "uv_textures (data mesh) \<noteq> []"
    by (simp add: exportable_def)
  show ?thesis
  proof (cases "active_image mesh")
    case None
    then show ?thesis
      using uv unfolding build_mesh_json_def Let_def
      by (simp add: set_texture_name_run split: option.splits list.splits)
  next
    case (Some n)
    have f0: "vertex_uv_indices ?mj0 = Some []" "vertex_group_indices ?mj0 = Some []"
      "vertex_group_weights ?mj0 = Some []" "num_groups_for_each_vertex ?mj0 = Some []"
      by (simp_all add: set_armature_name_eq initial_mesh_json_def split: option.splits)
    show ?thesis
    proof (cases "list_all (\<lambda>f. length (face_vertices f) \<le> length (loop_indices f))
           (polygons (data mesh))")
      case False
      then have "\<not> (\<forall>f\<in>set (polygons (data mesh)).
          length (face_vertices f) \<le> length (loop_indices f))"
        by (simp add: list_all_iff)
      then show ?thesis
        unfolding build_mesh_json_def Let_def
        using uv Some
        apply (simp add: set_texture_name_run)
        apply (subst polygons_loop_run [where u = "[]"])
         apply (simp add: f0)
        apply auto
        done
    next
      case True
      with assms Some uv have nol: "uv_layers_active (data mesh) = None"
        by (simp add: exportable_def)
      have all: "\<forall>f\<in>set (polygons (data mesh)).
          length (face_vertices f) \<le> length (loop_indices f)"
        using True by (simp add: list_all_iff)
      show ?thesis
        unfolding build_mesh_json_def Let_def
        using uv Some nol all
        apply (simp add: set_texture_name_run export_uvs_def)
        apply (subst polygons_loop_run [where u = "[]"])
         apply (simp add: f0)
        apply simp
        apply (subst vertices_loop_run [where gi = "[]" and gw = "[]" and ng = "[]"])
           apply (simp_all add: f0)
        done
    qed
  qed
qed





















lemma corners_loop_run:
  "corners_loop m cs ([a, b, c], [d, e, f]) =
     ([foldl py_min a (world_axis m vec_x cs), foldl py_min b (world_axis m vec_y cs),
       foldl py_min c (world_axis m vec_z cs)],
      [foldl py_max d (world_axis m vec_x cs), foldl py_max e (world_axis m vec_y cs),
       foldl py_max f (world_axis m vec_z cs)])"
  by (induction cs arbitrary: a b c d e f) (simp_all add: world_axis_def Let_def)

lemma compute_bounding_box_run:
  "compute_bounding_box mesh =
     \<lparr>lower_left_front =
        [foldl py_min PosInf (world_axis (matrix_world mesh) vec_x (bound_box mesh)),
         foldl py_min PosInf (world_axis (matrix_world mesh) vec_y (bound_box mesh)),
         foldl py_min PosInf (world_axis (matrix_world mesh) vec_z (bound_box mesh))],
      upper_right_back =
        [foldl py_max NegInf (world_axis (matrix_world mesh) vec_x (bound_box mesh)),
         foldl py_max NegInf (world_axis (matrix_world mesh) vec_y (bound_box mesh)),
         foldl py_max NegInf (world_axis (matrix_world mesh) vec_z (bound_box mesh))]\<rparr>"
  by (simp add: compute_bounding_box_def corners_loop_run)



lemma rfind_range: "- 1 \<le> rfind p c \<and> rfind p c < int (length p)"
proof (induction p)
  case Nil
  show ?case by simp
next
  case (Cons x xs)
  then show ?case by (simp add: Let_def)
qed

lemma rfind_absent: "rfind p c = - 1 \<longleftrightarrow> c \<notin> set p"
proof (induction p)
  case Nil
  show ?case by simp
next
  case (Cons x xs)
  have "- 1 \<le> rfind xs c" using rfind_range by blast
  then have "rfind xs c + 1 \<noteq> - 1" by linarith
  then show ?case using Cons.IH by (auto simp: Let_def)
qed

lemma rfind_nth: "rfind p c \<noteq> - 1 \<Longrightarrow> p ! nat (rfind p c) = c"
proof (induction p)
  case Nil
  then show ?case by simp
next
  case (Cons x xs)
  show ?case
  proof (cases "rfind xs c = - 1")
    case True
    then show ?thesis using Cons.prems by (auto simp: Let_def split: if_splits)
  next
    case False
    moreover have "0 \<le> rfind xs c" using rfind_range [of xs c] False by linarith
    ultimately show ?thesis
      using Cons.IH by (simp add: Let_def nat_add_distrib)
  qed
qed

lemma rfind_last: "c \<notin> set (drop (nat (rfind p c + 1)) p)"
proof (induction p)
  case Nil
  show ?case by simp
next
  case (Cons x xs)
  show ?case
  proof (cases "rfind xs c = - 1")
    case True
    then have "c \<notin> set xs" by (simp add: rfind_absent)
    then show ?thesis using True by (auto simp: Let_def)
  next
    case False
    moreover have "0 \<le> rfind xs c" using rfind_range [of xs c] False by linarith
    ultimately show ?thesis
      using Cons.IH by (simp add: Let_def nat_add_distrib)
  qed
qed

lemma splitext_parts: "fst (splitext p) @ snd (splitext p) = p"
  by (simp add: splitext_def splitext_generic_def Let_def)

lemma splitext_example: "splitext ''wood.png'' = (''wood'', ''.png'')"
  by (simp add: splitext_def splitext_generic_def skip_leading_dots.simps)

lemma splitext_extension:
  "snd (splitext p) = [] \<or>
   (\<exists>e. snd (splitext p) = CHR ''.'' # e \<and> CHR ''.'' \<notin> set e \<and> CHR ''/'' \<notin> set e)"
proof (cases "rfind p (CHR ''.'') > rfind p (CHR ''/'') \<and>
    skip_leading_dots p (CHR ''.'') (rfind p (CHR ''/'') + 1) (rfind p (CHR ''.''))")
  case False
  then have "snd (splitext p) = []"
    by (auto simp: splitext_def splitext_generic_def Let_def)
  then show ?thesis ..
next
  case True
  let ?d = "rfind p (CHR ''.'')"
  let ?s = "rfind p (CHR ''/'')"
  have s: "- 1 \<le> ?s" using rfind_range by blast
  with True have d0: "0 \<le> ?d" by linarith
  then have dn: "?d \<noteq> - 1" by linarith
  have dl: "nat ?d < length p" using rfind_range [of p "CHR ''.''"] d0 by linarith
  have ext: "snd (splitext p) = drop (nat ?d) p"
    using True by (simp add: splitext_def splitext_generic_def Let_def)
  have "drop (nat ?d) p = p ! nat ?d # drop (Suc (nat ?d)) p"
    using dl by (simp add: Cons_nth_drop_Suc)
  then have shape: "snd (splitext p) = CHR ''.'' # drop (Suc (nat ?d)) p"
    using ext rfind_nth [OF dn] by simp
  have "Suc (nat ?d) = nat (?d + 1)" using d0 by simp
  then have nodot: "CHR ''.'' \<notin> set (drop (Suc (nat ?d)) p)"
    using rfind_last [of "CHR ''.''" p] by simp
  have "nat (?s + 1) \<le> Suc (nat ?d)" using True s by linarith
  then have "set (drop (Suc (nat ?d)) p) \<subseteq> set (drop (nat (?s + 1)) p)"
    by (simp add: set_drop_subset_set_drop)
  then have nosep: "CHR ''/'' \<notin> set (drop (Suc (nat ?d)) p)"
    using rfind_last [of "CHR ''/''" p] by blast
  show ?thesis
    using shape nodot nosep by blast
qed

lemma build_skinned_mesh: "build_mesh_json skinned_mesh = Inr skinned_document"
proof -
  have 1: "uv_textures (data skinned_mesh) \<noteq> []"
    by (simp add: skinned_mesh_def)
  have 2: "active_image skinned_mesh = Some ''wood.png''"
    by (simp add: skinned_mesh_def active_image_def)
  have 3: "uv_layers_active (data skinned_mesh) =
      Some [(Fin 0, Fin 0), (Fin 1, Fin 0), (Fin 1, Fin 1), (Fin 0, Fin 0),
        (Fin 1, Fin 1), (Fin 0, Fin 1), (Fin 0, Fin 1)]"
    by (simp add: skinned_mesh_def)
  have 4: "list_all (\<lambda>f. length (face_vertices f) \<le> length (loop_indices f))
      (polygons (data skinned_mesh))"
    by (simp add: skinned_mesh_def)
  have pa: "parent_armature skinned_mesh = Some ''Rig''"
    by (simp add: parent_armature_def set_armature_name_def skinned_mesh_def)
  have bb: "compute_bounding_box skinned_mesh =
      \<lparr>lower_left_front = [Fin 1, Fin (- 1), Fin 4], upper_right_back = [Fin 3, Fin 1, Fin 6]\<rparr>"
    by (simp add: compute_bounding_box_run world_axis_def skinned_mesh_def unit_cube_corners_def
        py_min_def py_max_def)
  note sp = splitext_example
  show ?thesis
    unfolding build_uv [OF 1 2 3 4] pa bb sp
    by (simp add: skinned_mesh_def skinned_document_def when_some_def)
qed

lemma build_quad_plane: "build_mesh_json quad_plane = Inr quad_document"
proof -
  have 1: "uv_textures (data quad_plane) = []"
    by (simp add: quad_plane_def)
  have pa: "parent_armature quad_plane = None"
    by (simp add: parent_armature_def set_armature_name_def quad_plane_def
        initial_mesh_json_def)
  have bb: "compute_bounding_box quad_plane =
      \<lparr>lower_left_front = [Fin (- 1), Fin (- 1), Fin (- 1)],
       upper_right_back = [Fin 1, Fin 1, Fin 1]\<rparr>"
    by (simp add: compute_bounding_box_run world_axis_def quad_plane_def unit_cube_corners_def
        identity_world_def py_min_def py_max_def)
  show ?thesis
    unfolding build_no_uv [OF 1] pa bb
    by (simp add: quad_plane_def quad_document_def when_some_def)
qed

section \<open>The claims\<close>

lemma build_cases:
  assumes "build_mesh_json mesh = Inr doc"
  obtains (no_uv) "uv_textures (data mesh) = []"
  | (uv) n layer where "uv_textures (data mesh) \<noteq> []" "active_image mesh = Some n"
      "uv_layers_active (data mesh) = Some layer"
      "list_all (\<lambda>f. length (face_vertices f) \<le> length (loop_indices f))
         (polygons (data mesh))"
proof -
  have "exportable mesh"
    using assms build_not_exportable [of mesh] by auto
  then show thesis
    using no_uv uv by (auto simp: exportable_def)
qed

lemma sum_face_sizes:
  "sum_list (map (\<lambda>f. int (length (face_vertices f))) fs) =
   int (length (concat (map face_vertices fs)))"
  by (induction fs) simp_all

lemma length_normal_index_stream:
  "length (normal_index_stream index fs) = length (concat (map face_vertices fs))"
  by (induction fs arbitrary: index) simp_all

lemma length_loop_stream:
  "list_all (\<lambda>f. length (face_vertices f) \<le> length (loop_indices f)) fs \<Longrightarrow>
   length (concat (map (\<lambda>f. take (length (face_vertices f)) (loop_indices f)) fs)) =
   length (concat (map face_vertices fs))"
  by (induction fs) simp_all

text \<open>
  C1. In the exported document the face sizes add up to the number of position indices,
  which is also the number of normal indices; the UV indices are present exactly when the
  mesh has a UV texture, and then there are as many of them.
\<close>

theorem index_consistency:
  assumes "build_mesh_json mesh = Inr doc"
  shows "sum_list (num_vertices_in_each_face doc) = int (length (vertex_position_indices doc)) \<and>
     length (vertex_position_indices doc) = length (vertex_normal_indices doc) \<and>
     (case vertex_uv_indices doc of
        None \<Rightarrow> uv_textures (data mesh) = []
      | Some uvi \<Rightarrow> uv_textures (data mesh) \<noteq> [] \<and>
          length uvi = length (vertex_position_indices doc))"
  using assms
proof (cases rule: build_cases)
  case no_uv
  from build_no_uv [OF no_uv] assms show ?thesis
    using no_uv by (auto simp: sum_face_sizes length_normal_index_stream)
next
  case (uv n layer)
  from build_uv [OF uv] assms show ?thesis
    using uv(1,4) by (auto simp: sum_face_sizes length_normal_index_stream length_loop_stream)
qed

theorem index_consistency_witness:
  "build_mesh_json skinned_mesh = Inr skinned_document \<and>
   sum_list (num_vertices_in_each_face skinned_document) = 7 \<and>
   length (vertex_position_indices skinned_document) = 7 \<and>
   length (vertex_normal_indices skinned_document) = 7 \<and>
   vertex_uv_indices skinned_document = Some [0, 1, 2, 3, 4, 5, 6]"
  using index_consistency [OF build_skinned_mesh] build_skinned_mesh
  by (simp add: skinned_document_def)

lemma length_flat_normals:
  "length (concat (map (\<lambda>f. [vec_x (normal f), vec_y (normal f), vec_z (normal f)]) fs)) =
   3 * length fs"
  by (induction fs) simp_all

text \<open>
  C2. The flattener appends the x, y, z components of each face normal once per face, so
  \<open>vertex_normals\<close> has three entries per face, and every loop of face \<open>i\<close> gets the normal
  index \<open>i\<close>.
\<close>

theorem face_normals:
  assumes "build_mesh_json mesh = Inr doc"
  shows "vertex_normals doc =
       concat (map (\<lambda>f. [vec_x (normal f), vec_y (normal f), vec_z (normal f)])
         (polygons (data mesh))) \<and>
     length (vertex_normals doc) = 3 * length (polygons (data mesh)) \<and>
     vertex_normal_indices doc =
       concat (map (\<lambda>i. replicate (length (face_vertices (polygons (data mesh) ! i))) (int i))
         [0..<length (polygons (data mesh))])"
  using assms
proof (cases rule: build_cases)
  case no_uv
  from build_no_uv [OF no_uv] assms show ?thesis
    by (auto simp: length_flat_normals normal_index_stream_def)
next
  case (uv n layer)
  from build_uv [OF uv] assms show ?thesis
    by (auto simp: length_flat_normals normal_index_stream_def)
qed

theorem face_normals_witness:
  "build_mesh_json skinned_mesh = Inr skinned_document \<and>
   vertex_normals skinned_document = map Fin [0, 0, 1, 0, 1, 0] \<and>
   length (vertex_normals skinned_document) = 3 * length (polygons (data skinned_mesh)) \<and>
   vertex_normal_indices skinned_document = [0, 0, 0, 1, 1, 1, 1]"
  using face_normals [OF build_skinned_mesh] build_skinned_mesh
  by (simp add: skinned_document_def skinned_mesh_def)

lemma parent_armature_None:
  "parent_armature mesh = None \<longleftrightarrow>
   \<not> (\<exists>p. parent mesh = Some p \<and> parent_type p = ''ARMATURE'')"
  by (auto simp: parent_armature_def set_armature_name_def initial_mesh_json_def
      split: option.splits)

lemma parent_armature_Some:
  "parent mesh = Some p \<Longrightarrow> parent_type p = ''ARMATURE'' \<Longrightarrow>
   parent_armature mesh = Some (parent_name p)"
  by (simp add: parent_armature_def set_armature_name_def initial_mesh_json_def)

text \<open>
  C4. In the final document the three group arrays are \<open>None\<close> exactly when there is no
  armature name, which is exactly when the parent is not an armature; the two UV arrays
  are \<open>None\<close> exactly when there is no texture name, which is exactly when the mesh has no
  UV texture. Each group of optional arrays is all \<open>None\<close> or all present.
\<close>

theorem optional_arrays_together:
  assumes "build_mesh_json mesh = Inr doc"
  shows "(armature_name doc = None \<longleftrightarrow>
        \<not> (\<exists>p. parent mesh = Some p \<and> parent_type p = ''ARMATURE'')) \<and>
     (vertex_group_indices doc = None \<longleftrightarrow> armature_name doc = None) \<and>
     (vertex_group_weights doc = None \<longleftrightarrow> armature_name doc = None) \<and>
     (num_groups_for_each_vertex doc = None \<longleftrightarrow> armature_name doc = None) \<and>
     (texture_name doc = None \<longleftrightarrow> uv_textures (data mesh) = []) \<and>
     (vertex_uvs doc = None \<longleftrightarrow> texture_name doc = None) \<and>
     (vertex_uv_indices doc = None \<longleftrightarrow> texture_name doc = None)"
  using assms
proof (cases rule: build_cases)
  case no_uv
  from build_no_uv [OF no_uv] assms show ?thesis
    using no_uv parent_armature_None [of mesh] by (auto simp: when_some_def)
next
  case (uv n layer)
  from build_uv [OF uv] assms show ?thesis
    using uv(1) parent_armature_None [of mesh] by (auto simp: when_some_def)
qed

theorem optional_arrays_together_witness:
  "build_mesh_json quad_plane = Inr quad_document \<and>
   armature_name quad_document = None \<and>
   vertex_group_indices quad_document = None \<and>
   vertex_group_weights quad_document = None \<and>
   num_groups_for_each_vertex quad_document = None \<and>
   uv_textures (data quad_plane) = [] \<and>
   texture_name quad_document = None \<and>
   vertex_uvs quad_document = None \<and>
   vertex_uv_indices quad_document = None"
  using optional_arrays_together [OF build_quad_plane] build_quad_plane
  by (simp add: quad_document_def quad_plane_def)

lemma sum_group_counts:
  "sum_list (map (\<lambda>v. int (length (groups v))) vs) =
   int (length (concat (map (\<lambda>v. map group (groups v)) vs)))"
  by (induction vs) simp_all

lemma length_group_weights:
  "length (concat (map (\<lambda>v. map weight (groups v)) vs)) =
   length (concat (map (\<lambda>v. map group (groups v)) vs))"
  by (induction vs) simp_all

text \<open>
  C5. When the parent is an armature, the group output is the per-vertex encoding in
  vertex order: the pairs of each vertex appear consecutively, indices and weights as the
  host gives them, with the number of pairs of each vertex in
  \<open>num_groups_for_each_vertex\<close>; the counts add up to the length of either flat array.
\<close>

theorem group_encoding:
  assumes "build_mesh_json mesh = Inr doc"
    and "parent mesh = Some p" and "parent_type p = ''ARMATURE''"
  shows "vertex_group_indices doc =
       Some (concat (map (\<lambda>v. map group (groups v)) (vertices (data mesh)))) \<and>
     vertex_group_weights doc =
       Some (concat (map (\<lambda>v. map weight (groups v)) (vertices (data mesh)))) \<and>
     num_groups_for_each_vertex doc =
       Some (map (\<lambda>v. int (length (groups v))) (vertices (data mesh))) \<and>
     sum_list (map (\<lambda>v. int (length (groups v))) (vertices (data mesh))) =
       int (length (concat (map (\<lambda>v. map group (groups v)) (vertices (data mesh))))) \<and>
     length (concat (map (\<lambda>v. map weight (groups v)) (vertices (data mesh)))) =
       length (concat (map (\<lambda>v. map group (groups v)) (vertices (data mesh))))"
  using assms(1)
proof (cases rule: build_cases)
  case no_uv
  from build_no_uv [OF no_uv] assms(1) show ?thesis
    using parent_armature_Some [OF assms(2,3)]
    by (auto simp: when_some_def sum_group_counts length_group_weights)
next
  case (uv n layer)
  from build_uv [OF uv] assms(1) show ?thesis
    using parent_armature_Some [OF assms(2,3)]
    by (auto simp: when_some_def sum_group_counts length_group_weights)
qed

theorem group_encoding_witness:
  "build_mesh_json skinned_mesh = Inr skinned_document \<and>
   parent skinned_mesh = Some \<lparr>parent_type = ''ARMATURE'', parent_name = ''Rig''\<rparr> \<and>
   vertex_group_indices skinned_document = Some [0, 0, 2, 1] \<and>
   vertex_group_weights skinned_document = Some (map Fin [1, 1 / 4, 3 / 4, 1]) \<and>
   num_groups_for_each_vertex skinned_document = Some [1, 0, 2, 1, 0]"
proof -
  have p: "parent skinned_mesh = Some \<lparr>parent_type = ''ARMATURE'', parent_name = ''Rig''\<rparr>"
    by (simp add: skinned_mesh_def)
  show ?thesis
    using group_encoding [OF build_skinned_mesh p] build_skinned_mesh p
    by (simp add: skinned_document_def)
qed








lemma upt_shift: "[n..<n + m] = map (\<lambda>k. n + k) [0..<m]"
  by (induction m) simp_all

lemma upt_split: "[0..<n + m] = [0..<n] @ map (\<lambda>k. n + k) [0..<m]"
proof -
  have "[0..<n + m] = [0..<n] @ [n..<n + m]"
    by (rule upt_add_eq_append) simp
  then show ?thesis
    by (simp only: upt_shift)
qed

lemma map_offset_split:
  fixes start :: int
  shows "map (\<lambda>k. start + int k) [0..<n + m] =
    map (\<lambda>k. start + int k) [0..<n] @ map (\<lambda>k. start + int n + int k) [0..<m]"
proof -
  have "map (\<lambda>k. start + int k) (map (\<lambda>k. n + k) [0..<m]) =
      map (\<lambda>k. start + int n + int k) [0..<m]"
    by (simp add: o_def add.assoc)
  then show ?thesis
    by (simp only: upt_split map_append)
qed

lemma consecutive_loop_stream:
  "consecutive_loops start fs \<Longrightarrow>
   concat (map (\<lambda>f. take (length (face_vertices f)) (loop_indices f)) fs) =
   map (\<lambda>k. start + int k) [0..<length (concat (map face_vertices fs))]"
proof (induction fs arbitrary: start)
  case Nil
  show ?case by simp
next
  case (Cons f fs)
  let ?n = "length (face_vertices f)"
  let ?m = "length (concat (map face_vertices fs))"
  have li: "loop_indices f = map (\<lambda>k. start + int k) [0..<?n]"
    and rest: "consecutive_loops (start + int ?n) fs"
    using Cons.prems by simp_all
  have "length (loop_indices f) = ?n"
    by (subst li) simp
  then have t: "take ?n (loop_indices f) = map (\<lambda>k. start + int k) [0..<?n]"
    using li by simp
  have r: "concat (map (\<lambda>f. take (length (face_vertices f)) (loop_indices f)) fs) =
      map (\<lambda>k. start + int ?n + int k) [0..<?m]"
    by (rule Cons.IH [OF rest])
  have "concat (map (\<lambda>f. take (length (face_vertices f)) (loop_indices f)) (f # fs)) =
      map (\<lambda>k. start + int k) [0..<?n] @ map (\<lambda>k. start + int ?n + int k) [0..<?m]"
    by (simp only: list.map concat.simps t r)
  also have "\<dots> = map (\<lambda>k. start + int k) [0..<?n + ?m]"
    by (rule map_offset_split [symmetric])
  also have "?n + ?m = length (concat (map face_vertices (f # fs)))"
    by simp
  finally show ?case .
qed

lemma build_exportable:
  assumes "exportable mesh"
  shows "\<exists>doc. build_mesh_json mesh = Inr doc"
proof (cases "uv_textures (data mesh) = []")
  case True
  from build_no_uv [OF True] show ?thesis by blast
next
  case False
  with assms obtain n layer where "active_image mesh = Some n"
    "uv_layers_active (data mesh) = Some layer"
    "list_all (\<lambda>f. length (face_vertices f) \<le> length (loop_indices f)) (polygons (data mesh))"
    by (auto simp: exportable_def)
  from build_uv [OF False this] show ?thesis by blast
qed

lemma build_swapped_loops_mesh:
  "map_sum id vertex_uv_indices (build_mesh_json swapped_loops_mesh) =
     Inr (Some [4, 5, 6, 0, 1, 2, 3])"
proof -
  have 1: "uv_textures (data swapped_loops_mesh) \<noteq> []"
    by (simp add: swapped_loops_mesh_def skinned_mesh_def)
  have 2: "active_image swapped_loops_mesh = Some ''wood.png''"
    by (simp add: swapped_loops_mesh_def skinned_mesh_def active_image_def)
  have 3: "uv_layers_active (data swapped_loops_mesh) =
      Some [(Fin 0, Fin 0), (Fin 1, Fin 0), (Fin 1, Fin 1), (Fin 0, Fin 0),
        (Fin 1, Fin 1), (Fin 0, Fin 1), (Fin 0, Fin 1)]"
    by (simp add: swapped_loops_mesh_def skinned_mesh_def)
  have 4: "list_all (\<lambda>f. length (face_vertices f) \<le> length (loop_indices f))
      (polygons (data swapped_loops_mesh))"
    by (simp add: swapped_loops_mesh_def skinned_mesh_def)
  have p: "polygons (data swapped_loops_mesh) =
      [\<lparr>face_vertices = [0, 1, 2], loop_indices = [4, 5, 6], normal = vec 0 0 1\<rparr>,
       \<lparr>face_vertices = [0, 2, 3, 4], loop_indices = [0, 1, 2, 3], normal = vec 0 1 0\<rparr>]"
    by (simp add: swapped_loops_mesh_def)
  show ?thesis
    unfolding build_uv [OF 1 2 3 4]
    by (simp add: p)
qed

text \<open>
  C3 as stated fails: the operator appends the host's \<open>loop_indices\<close> entry of the loop,
  not a running offset. With the loops of the second face stored first, the UV indices of
  the seven loops are not \<open>0, ..., 6\<close>.
\<close>

theorem uv_indices_sequential_counterexample:
  "uv_textures (data swapped_loops_mesh) \<noteq> [] \<and>
   map_sum id vertex_uv_indices (build_mesh_json swapped_loops_mesh) =
     Inr (Some [4, 5, 6, 0, 1, 2, 3]) \<and>
   map_sum id vertex_uv_indices (build_mesh_json swapped_loops_mesh) \<noteq>
     Inr (Some [0, 1, 2, 3, 4, 5, 6])"
proof -
  have u: "uv_textures (data swapped_loops_mesh) \<noteq> []"
    by (simp add: swapped_loops_mesh_def skinned_mesh_def)
  show ?thesis
    unfolding build_swapped_loops_mesh using u by simp
qed

text \<open>
  C3, amended. With a UV texture, the entry appended for loop \<open>i\<close> of a face is the host's
  \<open>face.loop_indices[i]\<close>; the UV indices are \<open>0, 1, ...\<close> up to the number of loops when
  the host numbers the loops consecutively in face order from 0.
\<close>

theorem uv_indices_are_loop_indices:
  assumes "build_mesh_json mesh = Inr doc"
    and "uv_textures (data mesh) \<noteq> []"
  shows "vertex_uv_indices doc =
       Some (concat (map (\<lambda>f. map (\<lambda>i. loop_indices f ! i) [0..<length (face_vertices f)])
         (polygons (data mesh)))) \<and>
     (consecutive_loops 0 (polygons (data mesh)) \<longrightarrow>
      vertex_uv_indices doc = Some (map int [0..<length (vertex_position_indices doc)]))"
  using assms(1)
proof (cases rule: build_cases)
  case no_uv
  with assms(2) show ?thesis by contradiction
next
  case (uv n layer)
  let ?fs = "polygons (data mesh)"
  have "map (\<lambda>f. map (\<lambda>i. loop_indices f ! i) [0..<length (face_vertices f)]) ?fs =
      map (\<lambda>f. take (length (face_vertices f)) (loop_indices f)) ?fs"
  proof (rule map_cong [OF refl])
    fix f
    assume "f \<in> set ?fs"
    then have "length (face_vertices f) \<le> length (loop_indices f)"
      using uv(4) by (simp add: list_all_iff)
    then show "map (\<lambda>i. loop_indices f ! i) [0..<length (face_vertices f)] =
        take (length (face_vertices f)) (loop_indices f)"
      by (rule map_nth_upt_take)
  qed
  then have eq: "concat (map (\<lambda>f. map (\<lambda>i. loop_indices f ! i) [0..<length (face_vertices f)]) ?fs) =
      concat (map (\<lambda>f. take (length (face_vertices f)) (loop_indices f)) ?fs)"
    by (simp only:)
  from build_uv [OF uv] assms(1)
  have uvi: "vertex_uv_indices doc =
      Some (concat (map (\<lambda>f. take (length (face_vertices f)) (loop_indices f)) ?fs))"
    and vpi: "vertex_position_indices doc = concat (map face_vertices ?fs)"
    by auto
  have stream: "consecutive_loops 0 ?fs \<Longrightarrow>
      concat (map (\<lambda>f. take (length (face_vertices f)) (loop_indices f)) ?fs) =
      map int [0..<length (concat (map face_vertices ?fs))]"
    using consecutive_loop_stream [of 0 ?fs] by simp
  show ?thesis
  proof (intro conjI impI)
    show "vertex_uv_indices doc =
        Some (concat (map (\<lambda>f. map (\<lambda>i. loop_indices f ! i) [0..<length (face_vertices f)]) ?fs))"
      unfolding uvi eq by (rule refl)
  next
    assume c: "consecutive_loops 0 ?fs"
    show "vertex_uv_indices doc = Some (map int [0..<length (vertex_position_indices doc)])"
      unfolding uvi vpi stream [OF c] by (rule refl)
  qed
qed

theorem uv_indices_are_loop_indices_witness:
  "build_mesh_json skinned_mesh = Inr skinned_document \<and>
   uv_textures (data skinned_mesh) \<noteq> [] \<and>
   consecutive_loops 0 (polygons (data skinned_mesh)) \<and>
   vertex_uv_indices skinned_document = Some [0, 1, 2, 3, 4, 5, 6]"
proof -
  have u: "uv_textures (data skinned_mesh) \<noteq> []"
    by (simp add: skinned_mesh_def)
  have c: "consecutive_loops 0 (polygons (data skinned_mesh))"
    by (simp add: skinned_mesh_def)
  show ?thesis
    using uv_indices_are_loop_indices [OF build_skinned_mesh u] build_skinned_mesh u c
    by (simp add: skinned_document_def)
qed


lemma name_skinned_mesh: "name skinned_mesh = ''Body''"
  by (simp add: skinned_mesh_def)





text \<open>
  C9 as stated fails: the operator never compares the sizes of the faces. A mesh with a
  triangle and a quad is exported, each face with its own count.
\<close>

theorem mixed_topology_counterexample:
  "map (\<lambda>f. length (face_vertices f)) (polygons (data skinned_mesh)) = [3, 4] \<and>
   execute constant_dumps body_context =
     ([''START_MESH_JSON /tmp/body.blend Body'', ''{}'',
       ''END_MESH_JSON /tmp/body.blend Body''], Inr FINISHED) \<and>
   map_sum id num_vertices_in_each_face (build_mesh_json skinned_mesh) = Inr [3, 4]"
proof -
  have p: "map (\<lambda>f. length (face_vertices f)) (polygons (data skinned_mesh)) = [3, 4]"
    by (simp add: skinned_mesh_def)
  have n: "num_vertices_in_each_face skinned_document = [3, 4]"
    by (simp add: skinned_document_def)
  show ?thesis
    using p n
    by (simp add: execute_def body_context_def build_skinned_mesh constant_dumps_def
        start_marker_def end_marker_def name_skinned_mesh)
qed

text \<open>
  C9, amended. The sizes of the faces are not checked: when the host data can be read,
  the document is built for faces of any sizes, mixed or not, each face contributing its
  own vertex count and its own vertex indices.
\<close>

theorem face_sizes_not_checked:
  assumes "exportable mesh"
  shows "\<exists>doc. build_mesh_json mesh = Inr doc \<and>
     num_vertices_in_each_face doc =
       map (\<lambda>f. int (length (face_vertices f))) (polygons (data mesh)) \<and>
     vertex_position_indices doc = concat (map face_vertices (polygons (data mesh)))"
proof -
  from build_exportable [OF assms] obtain doc where b: "build_mesh_json mesh = Inr doc"
    by blast
  from b have "num_vertices_in_each_face doc =
       map (\<lambda>f. int (length (face_vertices f))) (polygons (data mesh)) \<and>
     vertex_position_indices doc = concat (map face_vertices (polygons (data mesh)))"
  proof (cases rule: build_cases)
    case no_uv
    from build_no_uv [OF no_uv] b show ?thesis by auto
  next
    case (uv n layer)
    from build_uv [OF uv] b show ?thesis by auto
  qed
  with b show ?thesis by blast
qed

theorem face_sizes_not_checked_witness:
  "exportable skinned_mesh \<and>
   build_mesh_json skinned_mesh = Inr skinned_document \<and>
   num_vertices_in_each_face skinned_document = [3, 4] \<and>
   vertex_position_indices skinned_document = [0, 1, 2, 0, 2, 3, 4]"
proof -
  have e: "exportable skinned_mesh"
    by (simp add: exportable_def active_image_def skinned_mesh_def)
  from face_sizes_not_checked [OF e]
  have "\<exists>doc. build_mesh_json skinned_mesh = Inr doc"
    by blast
  then show ?thesis
    using e build_skinned_mesh by (simp add: skinned_document_def)
qed











end
